theory Spec2Isabelle
  imports Main "HOL-Library.Word" "HOL-Library.AList" "HOL-Library.Multiset"
begin

section \<open>Go values used by \<open>main.go\<close>\<close>

text \<open>
  Go's \<open>int\<close> is a 64-bit two's-complement integer on the 64-bit targets the program is
  built for; \<open>+=\<close> wraps, \<open>%d\<close> and \<open>sort.IntSlice\<close> read it as signed (\<open>sint\<close>).
  An \<open>error\<close> value is modelled by its message, the text \<open>%v\<close> prints.
\<close>

type_synonym go_int = "64 word"
type_synonym go_error = string

text \<open>The two runtime panics \<open>mainLoop\<close> can raise. Nothing recovers them: the process dies.\<close>

datatype panic = NilDereference | IndexOutOfRange

text \<open>\<open>*p\<close> for a pointer-typed field: \<open>None\<close> is Go's \<open>nil\<close>.\<close>

definition deref :: "'a option \<Rightarrow> panic + 'a" where
  "deref p = (case p of None \<Rightarrow> Inl NilDereference | Some v \<Rightarrow> Inr v)"

text \<open>\<open>strings.HasPrefix\<close> and \<open>strings.Contains\<close>: plain substring containment.\<close>

fun HasPrefix :: "string \<Rightarrow> string \<Rightarrow> bool" where
  "HasPrefix s [] = True"
| "HasPrefix [] (p # ps) = False"
| "HasPrefix (c # cs) (p # ps) = (c = p \<and> HasPrefix cs ps)"

fun Contains :: "string \<Rightarrow> string \<Rightarrow> bool" where
  "Contains [] substr = (substr = [])"
| "Contains (c # cs) substr = (HasPrefix (c # cs) substr \<or> Contains cs substr)"

text \<open>
  \<open>strings.Split(s, sep)\<close> for a one-character separator: the pieces of \<open>s\<close> between the
  separators, one more piece than there are separators. In particular
  \<open>strings.Split("", ",")\<close> is the one-element slice holding the empty string.
\<close>

fun Split :: "string \<Rightarrow> char \<Rightarrow> string list" where
  "Split [] sep = [[]]"
| "Split (c # cs) sep =
     (if c = sep then [] # Split cs sep
      else (case Split cs sep of
              [] \<Rightarrow> [[c]]
            | piece # pieces \<Rightarrow> (c # piece) # pieces))"

text \<open>\<open>fmt.Sprintf("%d", n)\<close>: decimal digits, a leading minus sign for negative values.\<close>

definition digit_char :: "nat \<Rightarrow> char" where
  "digit_char d = ''0123456789'' ! (d mod 10)"

fun decimal :: "nat \<Rightarrow> string" where
  "decimal n = (if n < 10 then [digit_char n] else decimal (n div 10) @ [digit_char (n mod 10)])"

declare decimal.simps [simp del]

definition Sprintf_d :: "go_int \<Rightarrow> string" where
  "Sprintf_d n = (if sint n < 0 then CHR ''-'' # decimal (nat (- sint n)) else decimal (nat (sint n)))"

definition newline :: char where
  "newline = CHR 0x0A"

section \<open>The AWS records\<close>

text \<open>
  The fields of \<open>autoscaling.Group\<close>, \<open>ec2.Subnet\<close> and \<open>ec2.DescribeSubnetsOutput\<close> that
  \<open>mainLoop\<close> reads. Every one of them is a pointer in the SDK.
\<close>

record LaunchTemplateSpecification =
  LaunchTemplateName :: "string option"

record LaunchTemplate =
  LaunchTemplateSpecification :: "LaunchTemplateSpecification option"

record MixedInstancesPolicy =
  PolicyLaunchTemplate :: "LaunchTemplate option"

record Group =
  AutoScalingGroupName :: "string option"
  GroupLaunchTemplate :: "LaunchTemplateSpecification option"
  MixedInstancesPolicy :: "MixedInstancesPolicy option"
  VPCZoneIdentifier :: "string option"

record Subnet =
  AvailableIpAddressCount :: "go_int option"

record DescribeSubnetsOutput =
  Subnets :: "Subnet option list"

text \<open>
  What \<open>ec2Client.DescribeSubnets\<close> returns for one subnet id: the output pointer and the
  error. Line 103 binds the error to \<open>_\<close>.
\<close>

type_synonym DescribeSubnets = "string \<Rightarrow> DescribeSubnetsOutput option \<times> go_error option"

section \<open>Lines 85 to 119: the loop over the groups\<close>

text \<open>Lines 90 to 95: the launch template name of a group.\<close>

definition ltName_of :: "Group \<Rightarrow> panic + string" where
  "ltName_of asg =
     (case GroupLaunchTemplate asg of
        Some lt \<Rightarrow> deref (LaunchTemplateName lt)
      | None \<Rightarrow>
          (case MixedInstancesPolicy asg of
             None \<Rightarrow> Inl NilDereference
           | Some mip \<Rightarrow>
               (case PolicyLaunchTemplate mip of
                  None \<Rightarrow> Inl NilDereference
                | Some plt \<Rightarrow>
                    (case LaunchTemplateSpecification plt of
                       None \<Rightarrow> Inl NilDereference
                     | Some spec \<Rightarrow> deref (LaunchTemplateName spec)))))"

text \<open>Line 106: \<open>int(*subnet.Subnets[0].AvailableIpAddressCount)\<close> on the output of line 103.\<close>

definition available :: "DescribeSubnets \<Rightarrow> string \<Rightarrow> panic + go_int" where
  "available describeSubnets subnetID =
     (case fst (describeSubnets subnetID) of
        None \<Rightarrow> Inl NilDereference
      | Some out \<Rightarrow>
          (case Subnets out of
             [] \<Rightarrow> Inl IndexOutOfRange
           | None # _ \<Rightarrow> Inl NilDereference
           | Some subnet # _ \<Rightarrow> deref (AvailableIpAddressCount subnet)))"

text \<open>Lines 102 to 107: the loop that adds the counts up, \<open>freeIPs\<close> threaded through.\<close>

fun sumFreeIPs :: "DescribeSubnets \<Rightarrow> string list \<Rightarrow> go_int \<Rightarrow> panic + go_int" where
  "sumFreeIPs describeSubnets [] freeIPs = Inr freeIPs"
| "sumFreeIPs describeSubnets (subnetID # rest) freeIPs =
     (case available describeSubnets subnetID of
        Inl p \<Rightarrow> Inl p
      | Inr n \<Rightarrow> sumFreeIPs describeSubnets rest (freeIPs + n))"

text \<open>
  \<open>caPriorities\<close>, a \<open>map[int][]string\<close>, is an association list with one entry per key;
  its order stands for the order in which \<open>range\<close> happens to visit the map.
  Lines 109 to 113 store under \<open>freeIPs\<close>.
\<close>

type_synonym tiers = "(go_int \<times> string list) list"

text \<open>\<open>caPriorities[key]\<close>: indexing a Go map at a missing key gives the nil slice.\<close>

definition namesAt :: "tiers \<Rightarrow> go_int \<Rightarrow> string list" where
  "namesAt caPriorities key =
     (case map_of caPriorities key of None \<Rightarrow> [] | Some names \<Rightarrow> names)"

definition addPriority :: "tiers \<Rightarrow> go_int \<Rightarrow> string \<Rightarrow> tiers" where
  "addPriority caPriorities freeIPs name =
     (case map_of caPriorities freeIPs of
        None \<Rightarrow> AList.update freeIPs [name] caPriorities
      | Some names \<Rightarrow> AList.update freeIPs (names @ [name]) caPriorities)"

text \<open>Lines 101 to 107 for one group: its score.\<close>

definition freeIPs_of :: "DescribeSubnets \<Rightarrow> Group \<Rightarrow> panic + go_int" where
  "freeIPs_of describeSubnets asg =
     (case deref (VPCZoneIdentifier asg) of
        Inl p \<Rightarrow> Inl p
      | Inr vpc \<Rightarrow> sumFreeIPs describeSubnets (Split vpc CHR '','') 0)"

text \<open>
  The loop of line 85 over the groups that \<open>awsSearchEC2ASGByName\<close> returned. The debug
  output of lines 86 to 88, 98 to 100 and 115 to 117 only prints and is left out.
\<close>

fun groupLoop :: "string \<Rightarrow> DescribeSubnets \<Rightarrow> Group list \<Rightarrow> tiers \<Rightarrow> panic + tiers" where
  "groupLoop ltContains describeSubnets [] caPriorities = Inr caPriorities"
| "groupLoop ltContains describeSubnets (asg # rest) caPriorities =
     (case ltName_of asg of
        Inl p \<Rightarrow> Inl p
      | Inr ltName \<Rightarrow>
          if Contains ltName ltContains then
            (case freeIPs_of describeSubnets asg of
               Inl p \<Rightarrow> Inl p
             | Inr freeIPs \<Rightarrow>
                 (case deref (AutoScalingGroupName asg) of
                    Inl p \<Rightarrow> Inl p
                  | Inr name \<Rightarrow>
                      groupLoop ltContains describeSubnets rest
                        (addPriority caPriorities freeIPs name)))
          else groupLoop ltContains describeSubnets rest caPriorities)"

text \<open>
  Two notions for stating what the loop computes: a group passes the template filter of
  line 97, and the names of the groups of a list that pass it with a given score, in the
  order of the list.
\<close>

definition passesTemplate :: "string \<Rightarrow> Group \<Rightarrow> bool" where
  "passesTemplate ltContains asg =
     (case ltName_of asg of Inl p \<Rightarrow> False | Inr ltName \<Rightarrow> Contains ltName ltContains)"

definition namesScoring :: "string \<Rightarrow> DescribeSubnets \<Rightarrow> go_int \<Rightarrow> Group list \<Rightarrow> string list" where
  "namesScoring ltContains describeSubnets score groups =
     concat (map (\<lambda>asg. case AutoScalingGroupName asg of None \<Rightarrow> [] | Some name \<Rightarrow> [name])
               (filter (\<lambda>asg. passesTemplate ltContains asg \<and>
                              freeIPs_of describeSubnets asg = Inr score) groups))"

section \<open>Lines 200 to 216: \<open>awsSearchEC2ASGByName\<close>\<close>

text \<open>
  The callback of lines 204 to 211 runs once for every page the SDK delivers, and
  returns \<open>!lastPage\<close>, so that every delivered page is read. Lines 205 to 209 for one page,
  \<open>records\<close> threaded through:
\<close>

fun pageLoop :: "string \<Rightarrow> Group list \<Rightarrow> Group list \<Rightarrow> panic + Group list" where
  "pageLoop name [] records = Inr records"
| "pageLoop name (grp # rest) records =
     (case deref (AutoScalingGroupName grp) of
        Inl p \<Rightarrow> Inl p
      | Inr groupName \<Rightarrow>
          pageLoop name rest (if Contains groupName name then records @ [grp] else records))"

fun pagesLoop :: "string \<Rightarrow> Group list list \<Rightarrow> Group list \<Rightarrow> panic + Group list" where
  "pagesLoop name [] records = Inr records"
| "pagesLoop name (page # rest) records =
     (case pageLoop name page records of
        Inl p \<Rightarrow> Inl p
      | Inr records' \<Rightarrow> pagesLoop name rest records')"

text \<open>
  Standard output is the list of the texts printed, one per \<open>Printf\<close> call.
  \<open>DescribeAutoScalingGroupsPages\<close> is given by the pages it delivered before it returned,
  and by the error it returned.
\<close>

definition awsSearchEC2ASGByName ::
  "Group list list \<Rightarrow> go_error option \<Rightarrow> string \<Rightarrow> panic + (Group list \<times> string list)" where
  "awsSearchEC2ASGByName pages err name =
     (case pagesLoop name pages [] of
        Inl p \<Rightarrow> Inl p
      | Inr records \<Rightarrow>
          Inr (records,
               (case err of
                  None \<Rightarrow> []
                | Some e \<Rightarrow> [''Error searching EC2 ASGs by name: '' @ e @ [newline]])))"

text \<open>The name filter of line 206, for stating what the search returns.\<close>

definition nameMatches :: "string \<Rightarrow> Group \<Rightarrow> bool" where
  "nameMatches name grp =
     (case AutoScalingGroupName grp of None \<Rightarrow> False | Some groupName \<Rightarrow> Contains groupName name)"

section \<open>Lines 141 to 161: the text of the priorities\<close>

text \<open>Line 147: \<open>sort.Sort(sort.Reverse(sort.IntSlice(keys)))\<close>, descending as signed integers.\<close>

definition sortKeys :: "go_int list \<Rightarrow> go_int list" where
  "sortKeys keys = rev (sort_key sint keys)"

text \<open>Lines 150 to 153, for one key.\<close>

definition tierBlock :: "tiers \<Rightarrow> go_int \<Rightarrow> string" where
  "tierBlock caPriorities key =
     Sprintf_d key @ '':'' @ [newline] @
     concat (map (\<lambda>asg. ''  - '' @ asg @ [newline]) (namesAt caPriorities key))"

definition catchAllBlock :: string where
  "catchAllBlock = ''1:'' @ [newline] @ ''  - .*'' @ [newline]"

text \<open>
  Lines 147 to 159, from the slice \<open>keys\<close> that lines 143 to 146 collected in whatever
  order \<open>range\<close> visited the map.
\<close>

definition prioritiesFrom :: "tiers \<Rightarrow> go_int list \<Rightarrow> bool \<Rightarrow> string" where
  "prioritiesFrom caPriorities keys catchAll =
     concat (map (tierBlock caPriorities) (sortKeys keys)) @
     (if catchAll then catchAllBlock else [])"

definition renderPriorities :: "tiers \<Rightarrow> bool \<Rightarrow> string" where
  "renderPriorities caPriorities catchAll =
     prioritiesFrom caPriorities (map fst caPriorities) catchAll"

section \<open>Lines 121 to 139 and 167 to 196: the ConfigMap\<close>

text \<open>
  \<open>v1.ConfigMap\<close> with its \<open>metav1.ObjectMeta\<close>. Of the metadata the identifying
  fields, the resource version, the labels, the annotations and the finalizers are kept;
  the type meta, the timestamps, the owner references and the managed fields, which
  \<open>mainLoop\<close> never reads or assigns either, are not modelled.
\<close>

record ObjectMeta =
  Name :: string
  GenerateName :: string
  Namespace :: string
  UID :: string
  ResourceVersion :: string
  Labels :: "string \<rightharpoonup> string"
  Annotations :: "string \<rightharpoonup> string"
  Finalizers :: "string list"

record ConfigMap =
  ObjectMeta :: ObjectMeta
  Immutable :: "bool option"
  Data :: "string \<rightharpoonup> string"
  BinaryData :: "string \<rightharpoonup> 8 word list"

text \<open>Go's zero value of \<open>metav1.ObjectMeta\<close>.\<close>

definition zeroObjectMeta :: ObjectMeta where
  "zeroObjectMeta =
     \<lparr>Name = [], GenerateName = [], Namespace = [], UID = [], ResourceVersion = [],
      Labels = Map.empty, Annotations = Map.empty, Finalizers = []\<rparr>"

text \<open>The environment variables read at lines 27 to 39, parsed by \<open>init\<close>.\<close>

record Config =
  caNamespace :: string
  asgContains :: string
  ltContains :: string
  catchAll :: bool
  skipCMCreation :: bool

definition caPriorityExpander :: string where
  "caPriorityExpander = ''cluster-autoscaler-priority-expander''"

text \<open>
  What the collaborators answer during one call of \<open>mainLoop\<close>: the group listing, the
  subnet lookups, the construction of the Kubernetes client, the two \<open>Get\<close> calls (lines
  135 and 184) and the \<open>Create\<close> and \<open>Update\<close> calls, which answer \<open>nil\<close> or an error.
  Within one call a subnet id is answered the same way each time it is looked up.
\<close>

record World =
  pages :: "Group list list"
  pagesErr :: "go_error option"
  describeSubnets :: DescribeSubnets
  buildConfigErr :: "go_error option"
  newForConfigErr :: "go_error option"
  firstGet :: "go_error + ConfigMap"
  secondGet :: "go_error + ConfigMap"
  createErr :: "ConfigMap \<Rightarrow> go_error option"
  updateErr :: "ConfigMap \<Rightarrow> go_error option"

text \<open>The write requests sent to the store, each with the namespace of its client.\<close>

datatype k8s_write = Create string ConfigMap | Update string ConfigMap

record Outcome =
  stdout :: "string list"
  writes :: "k8s_write list"

definition qualifiedName :: "Config \<Rightarrow> string" where
  "qualifiedName cfg = caNamespace cfg @ ''/'' @ caPriorityExpander"

text \<open>Lines 133 to 139 and 167 to 196, with the \<open>data\<close> of line 161.\<close>

definition reconcile :: "Config \<Rightarrow> World \<Rightarrow> (string \<rightharpoonup> string) \<Rightarrow> Outcome" where
  "reconcile cfg w data =
     (let configMapExists = (case firstGet w of Inl err \<Rightarrow> False | Inr found \<Rightarrow> True) in
      if \<not> configMapExists then
        if skipCMCreation cfg then
          \<lparr>stdout = [''Skipping creation of configmap: '' @ qualifiedName cfg @ [newline]],
           writes = []\<rparr>
        else
          let cm = \<lparr>ObjectMeta = zeroObjectMeta\<lparr>Name := caPriorityExpander\<rparr>,
                    Immutable = None, Data = data, BinaryData = Map.empty\<rparr> in
          \<lparr>stdout =
             [case createErr w cm of
                Some err \<Rightarrow> ''Error creating configmap: '' @ err @ [newline]
              | None \<Rightarrow> ''Created configmap: '' @ qualifiedName cfg @ [newline]],
           writes = [Create (caNamespace cfg) cm]\<rparr>
      else
        (case secondGet w of
           Inl err \<Rightarrow>
             \<lparr>stdout = [''Error retrieving configmap: '' @ err @ [newline]], writes = []\<rparr>
         | Inr cm \<Rightarrow>
             let cm' = cm\<lparr>Data := data\<rparr> in
             \<lparr>stdout =
                [case updateErr w cm' of
                   Some err \<Rightarrow> ''Error updating configmap: '' @ err @ [newline]
                 | None \<Rightarrow> ''Updated configmap: '' @ qualifiedName cfg @ [newline]],
              writes = [Update (caNamespace cfg) cm']\<rparr>))"

section \<open>Lines 70 to 198: \<open>mainLoop\<close>\<close>

text \<open>
  A call of \<open>mainLoop\<close> either panics or returns with what it printed and what it sent
  to the store. The output under \<open>debug\<close> (lines 73 to 83 and 163 to 165) is left out.
  Lines 71 to 119: the groups found, scored and put into \<open>caPriorities\<close>.
\<close>

definition collectPriorities :: "Config \<Rightarrow> World \<Rightarrow> panic + (tiers \<times> string list)" where
  "collectPriorities cfg w =
     (case awsSearchEC2ASGByName (pages w) (pagesErr w) (asgContains cfg) of
        Inl p \<Rightarrow> Inl p
      | Inr (records, out) \<Rightarrow>
          (case groupLoop (ltContains cfg) (describeSubnets w) records [] of
             Inl p \<Rightarrow> Inl p
           | Inr caPriorities \<Rightarrow> Inr (caPriorities, out)))"

definition mainLoop :: "Config \<Rightarrow> World \<Rightarrow> panic + Outcome" where
  "mainLoop cfg w =
     (case collectPriorities cfg w of
        Inl p \<Rightarrow> Inl p
      | Inr (caPriorities, out) \<Rightarrow>
          (case buildConfigErr w of
             Some err \<Rightarrow>
               Inr \<lparr>stdout = out @ [''Unable to load kube config: '' @ err @ [newline]],
                    writes = []\<rparr>
           | None \<Rightarrow>
               (case newForConfigErr w of
                  Some err \<Rightarrow>
                    Inr \<lparr>stdout = out @ [''Unable to create Kubernetes client: '' @ err @ [newline]],
                         writes = []\<rparr>
                | None \<Rightarrow>
                    let data = [''priorities'' \<mapsto> renderPriorities caPriorities (catchAll cfg)];
                        result = reconcile cfg w data
                    in Inr (result\<lparr>stdout := out @ stdout result\<rparr>))))"

section \<open>Example inputs\<close>

text \<open>
  The fleet of the specification's example: \<open>A\<close> on subnet \<open>S1\<close> (5 free addresses),
  \<open>B\<close> on \<open>S2\<close> (5) and \<open>S3\<close> (3), \<open>C\<close> on \<open>S4\<close> (10). \<open>B\<close> names its template
  through a mixed-instances policy. Any other subnet id is unknown to EC2: the SDK then
  returns an empty output together with the error.
\<close>

definition directGroup :: "string \<Rightarrow> string \<Rightarrow> Group" where
  "directGroup name vpc =
     \<lparr>AutoScalingGroupName = Some name,
      GroupLaunchTemplate = Some \<lparr>LaunchTemplateName = Some ''workers''\<rparr>,
      MixedInstancesPolicy = None,
      VPCZoneIdentifier = Some vpc\<rparr>"

definition mixedGroup :: "string \<Rightarrow> string \<Rightarrow> Group" where
  "mixedGroup name vpc =
     \<lparr>AutoScalingGroupName = Some name,
      GroupLaunchTemplate = None,
      MixedInstancesPolicy =
        Some \<lparr>PolicyLaunchTemplate =
          Some \<lparr>LaunchTemplateSpecification = Some \<lparr>LaunchTemplateName = Some ''workers-spot''\<rparr>\<rparr>\<rparr>,
      VPCZoneIdentifier = Some vpc\<rparr>"

text \<open>A group started from a launch configuration carries neither reference.\<close>

definition legacyGroup :: "string \<Rightarrow> string \<Rightarrow> Group" where
  "legacyGroup name vpc =
     \<lparr>AutoScalingGroupName = Some name,
      GroupLaunchTemplate = None,
      MixedInstancesPolicy = None,
      VPCZoneIdentifier = Some vpc\<rparr>"

definition subnetWith :: "go_int \<Rightarrow> DescribeSubnetsOutput option \<times> go_error option" where
  "subnetWith n = (Some \<lparr>Subnets = [Some \<lparr>AvailableIpAddressCount = Some n\<rparr>]\<rparr>, None)"

definition exampleSubnets :: DescribeSubnets where
  "exampleSubnets subnetID =
     (if subnetID = ''S1'' then subnetWith 5
      else if subnetID = ''S2'' then subnetWith 5
      else if subnetID = ''S3'' then subnetWith 3
      else if subnetID = ''S4'' then subnetWith 10
      else (Some \<lparr>Subnets = []\<rparr>, Some ''InvalidSubnetID.NotFound''))"

definition exampleConfig :: Config where
  "exampleConfig =
     \<lparr>caNamespace = ''kube-system'', asgContains = [], ltContains = [],
      catchAll = True, skipCMCreation = False\<rparr>"

definition storedConfigMap :: ConfigMap where
  "storedConfigMap =
     \<lparr>ObjectMeta =
        \<lparr>Name = ''cluster-autoscaler-priority-expander'', GenerateName = [],
         Namespace = ''kube-system'', UID = ''7f3c'', ResourceVersion = ''41'',
         Labels = [''app'' \<mapsto> ''cluster-autoscaler''],
         Annotations = [''owner'' \<mapsto> ''platform''], Finalizers = []\<rparr>,
      Immutable = None,
      Data = [''priorities'' \<mapsto> ''50:'', ''note'' \<mapsto> ''kept by hand''],
      BinaryData = Map.empty\<rparr>"

definition exampleWorld :: World where
  "exampleWorld =
     \<lparr>pages = [[directGroup ''A'' ''S1'', mixedGroup ''B'' ''S2,S3'', directGroup ''C'' ''S4'']],
      pagesErr = None,
      describeSubnets = exampleSubnets,
      buildConfigErr = None,
      newForConfigErr = None,
      firstGet = Inl ''configmaps cluster-autoscaler-priority-expander not found'',
      secondGet = Inl ''configmaps cluster-autoscaler-priority-expander not found'',
      createErr = (\<lambda>cm. None),
      updateErr = (\<lambda>cm. None)\<rparr>"

section \<open>Strings and sums\<close>

lemma HasPrefix_iff: "HasPrefix s p \<longleftrightarrow> (\<exists>ss. s = p @ ss)"
  by (induction s p rule: HasPrefix.induct) auto

lemma Contains_iff: "Contains s substr \<longleftrightarrow> (\<exists>ps ss. s = ps @ substr @ ss)"
proof (induction s)
  case Nil
  then show ?case by simp
next
  case (Cons c cs)
  show ?case
  proof
    assume "Contains (c # cs) substr"
    then consider "HasPrefix (c # cs) substr" | "Contains cs substr" by auto
    then show "\<exists>ps ss. c # cs = ps @ substr @ ss"
    proof cases
      case 1
      then obtain ss where "c # cs = substr @ ss" by (auto simp: HasPrefix_iff)
      then have "c # cs = [] @ substr @ ss" by simp
      then show ?thesis by blast
    next
      case 2
      with Cons obtain ps ss where "cs = ps @ substr @ ss" by blast
      then have "c # cs = (c # ps) @ substr @ ss" by simp
      then show ?thesis by blast
    qed
  next
    assume "\<exists>ps ss. c # cs = ps @ substr @ ss"
    then obtain ps ss where eq: "c # cs = ps @ substr @ ss" by blast
    show "Contains (c # cs) substr"
    proof (cases ps)
      case Nil
      with eq have "HasPrefix (c # cs) substr" by (auto simp: HasPrefix_iff)
      then show ?thesis by simp
    next
      case (Cons p ps')
      with eq have "cs = ps' @ substr @ ss" by simp
      with Cons.IH have "Contains cs substr" by blast
      then show ?thesis by simp
    qed
  qed
qed

lemma Contains_empty: "Contains s []"
  by (induction s) auto

lemma Split_not_Nil: "Split s sep \<noteq> []"
  by (induction s) (auto split: list.splits)

lemma Split_no_separator: "sep \<notin> set s \<Longrightarrow> Split s sep = [s]"
  by (induction s) auto

lemma Split_at_separator:
  "sep \<notin> set piece \<Longrightarrow> Split (piece @ sep # rest) sep = piece # Split rest sep"
  by (induction piece) auto

lemma stb_sint: "signed_take_bit 63 (sint (c :: go_int)) = sint c"
  using sint_ge [of c] sint_lt [of c] by (simp add: signed_take_bit_int_eq_self)

lemma sint_sum_list:
  "sint (sum_list (cs :: go_int list)) = signed_take_bit 63 (\<Sum>c\<leftarrow>cs. sint c)"
proof (induction cs)
  case Nil
  then show ?case by simp
next
  case (Cons c cs)
  have "sint (c + sum_list cs) = signed_take_bit 63 (sint c + sint (sum_list cs))"
    by (simp add: sint_word_ariths)
  also have "\<dots> = signed_take_bit 63 (signed_take_bit 63 (sint c) + signed_take_bit 63 (\<Sum>c\<leftarrow>cs. sint c))"
    by (simp only: Cons.IH stb_sint)
  also have "\<dots> = signed_take_bit 63 (sint c + (\<Sum>c\<leftarrow>cs. sint c))"
    by (rule signed_take_bit_add)
  finally show ?case by simp
qed

lemma sint_sum_list_exact:
  "- (2 ^ 63) \<le> (\<Sum>c\<leftarrow>cs. sint c) \<Longrightarrow> (\<Sum>c\<leftarrow>cs. sint c) < 2 ^ 63 \<Longrightarrow>
   sint (sum_list (cs :: go_int list)) = (\<Sum>c\<leftarrow>cs. sint c)"
  by (simp add: sint_sum_list signed_take_bit_int_eq_self)

lemma sumFreeIPs_Inr:
  "sumFreeIPs ds ids acc = Inr s \<Longrightarrow>
   \<exists>cs. map (available ds) ids = map Inr cs \<and> s = acc + sum_list cs"
proof (induction ids arbitrary: acc)
  case Nil
  then show ?case by simp
next
  case (Cons i ids)
  from Cons.prems obtain n where n: "available ds i = Inr n"
    and rest: "sumFreeIPs ds ids (acc + n) = Inr s"
    by (auto split: sum.splits)
  from Cons.IH [OF rest] obtain cs where "map (available ds) ids = map Inr cs"
    and "s = acc + n + sum_list cs" by blast
  with n have "map (available ds) (i # ids) = map Inr (n # cs) \<and> s = acc + sum_list (n # cs)"
    by (simp add: add.assoc)
  then show ?case by blast
qed

lemma sumFreeIPs_of_counts:
  "map (available ds) ids = map Inr cs \<Longrightarrow> sumFreeIPs ds ids acc = Inr (acc + sum_list cs)"
proof (induction ids arbitrary: acc cs)
  case Nil
  then show ?case by simp
next
  case (Cons i ids)
  then obtain n cs' where "cs = n # cs'" "available ds i = Inr n" "map (available ds) ids = map Inr cs'"
    by (cases cs) auto
  with Cons.IH [of cs' "acc + n"] show ?case by (simp add: add.assoc)
qed

lemma sumFreeIPs_Inl:
  "i \<in> set ids \<Longrightarrow> available ds i = Inl p \<Longrightarrow> \<exists>q. sumFreeIPs ds ids acc = Inl q"
proof (induction ids arbitrary: acc)
  case Nil
  then show ?case by simp
next
  case (Cons j ids)
  then show ?case by (cases "available ds j") auto
qed

section \<open>What the loop over the groups computes\<close>

lemma namesAt_update:
  "namesAt (AList.update k v cap) k' = (if k' = k then v else namesAt cap k')"
  by (simp add: namesAt_def update_conv')

lemma namesAt_addPriority:
  "namesAt (addPriority cap k n) k' = (if k' = k then namesAt cap k @ [n] else namesAt cap k')"
  by (auto simp: addPriority_def namesAt_def update_conv' split: option.splits)

lemma keys_addPriority: "fst ` set (addPriority cap k n) = insert k (fst ` set cap)"
  by (simp add: addPriority_def dom_update split: option.splits)

lemma distinct_addPriority:
  "distinct (map fst (addPriority cap k n)) = distinct (map fst cap)"
  by (auto simp: addPriority_def update_keys split: option.splits)


lemma namesScoring_Nil: "namesScoring lt ds k [] = []"
  by (simp add: namesScoring_def)

lemma namesScoring_Cons:
  "namesScoring lt ds k (g # gs) =
     (if passesTemplate lt g \<and> freeIPs_of ds g = Inr k
      then (case AutoScalingGroupName g of None \<Rightarrow> [] | Some n \<Rightarrow> [n]) else []) @
     namesScoring lt ds k gs"
  by (simp add: namesScoring_def)

lemma groupLoop_namesAt:
  "groupLoop lt ds gs cap = Inr cap' \<Longrightarrow>
   namesAt cap' k = namesAt cap k @ namesScoring lt ds k gs"
proof (induction gs arbitrary: cap)
  case Nil
  then show ?case by (simp add: namesScoring_Nil)
next
  case (Cons g gs)
  from Cons.prems obtain ltn where ltn: "ltName_of g = Inr ltn"
    by (auto split: sum.splits)
  show ?case
  proof (cases "Contains ltn lt")
    case False
    with ltn Cons.prems have "groupLoop lt ds gs cap = Inr cap'" by simp
    from Cons.IH [OF this] False ltn show ?thesis
      by (simp add: namesScoring_Cons passesTemplate_def)
  next
    case True
    with ltn Cons.prems obtain s n where s: "freeIPs_of ds g = Inr s"
      and n: "deref (AutoScalingGroupName g) = Inr n"
      and rest: "groupLoop lt ds gs (addPriority cap s n) = Inr cap'"
      by (auto split: sum.splits)
    from n have name: "AutoScalingGroupName g = Some n"
      by (auto simp: deref_def split: option.splits)
    from Cons.IH [OF rest] True ltn s name show ?thesis
      by (simp add: namesScoring_Cons passesTemplate_def namesAt_addPriority)
  qed
qed

lemma groupLoop_keys:
  "groupLoop lt ds gs cap = Inr cap' \<Longrightarrow>
   fst ` set cap' =
     fst ` set cap \<union> {k. \<exists>g \<in> set gs. passesTemplate lt g \<and> freeIPs_of ds g = Inr k}"
proof (induction gs arbitrary: cap)
  case Nil
  then show ?case by simp
next
  case (Cons g gs)
  from Cons.prems obtain ltn where ltn: "ltName_of g = Inr ltn"
    by (auto split: sum.splits)
  show ?case
  proof (cases "Contains ltn lt")
    case False
    with ltn Cons.prems have "groupLoop lt ds gs cap = Inr cap'" by simp
    from Cons.IH [OF this] False ltn show ?thesis
      by (auto simp: passesTemplate_def)
  next
    case True
    with ltn Cons.prems obtain s n where s: "freeIPs_of ds g = Inr s"
      and rest: "groupLoop lt ds gs (addPriority cap s n) = Inr cap'"
      by (auto split: sum.splits)
    from Cons.IH [OF rest] True ltn s show ?thesis
      by (auto simp: passesTemplate_def keys_addPriority)
  qed
qed

lemma groupLoop_distinct:
  "groupLoop lt ds gs cap = Inr cap' \<Longrightarrow> distinct (map fst cap) \<Longrightarrow> distinct (map fst cap')"
proof (induction gs arbitrary: cap)
  case Nil
  then show ?case by simp
next
  case (Cons g gs)
  then show ?case
    by (auto simp: distinct_addPriority split: sum.splits if_splits)
qed

lemma groupLoop_complete:
  "groupLoop lt ds gs cap = Inr cap' \<Longrightarrow> g \<in> set gs \<Longrightarrow>
   \<exists>ltn. ltName_of g = Inr ltn \<and>
     (Contains ltn lt \<longrightarrow> (\<exists>s. freeIPs_of ds g = Inr s) \<and> (\<exists>n. AutoScalingGroupName g = Some n))"
proof (induction gs arbitrary: cap)
  case Nil
  then show ?case by simp
next
  case (Cons h hs)
  then show ?case
    by (auto simp: deref_def split: sum.splits if_splits option.splits)
qed

lemma groupLoop_total:
  "\<forall>g \<in> set gs. \<exists>ltn. ltName_of g = Inr ltn \<and>
     (Contains ltn lt \<longrightarrow> (\<exists>s. freeIPs_of ds g = Inr s) \<and> (\<exists>n. AutoScalingGroupName g = Some n))
   \<Longrightarrow> \<exists>cap'. groupLoop lt ds gs cap = Inr cap'"
proof (induction gs arbitrary: cap)
  case Nil
  then show ?case by simp
next
  case (Cons h hs)
  then show ?case
    by (auto simp: deref_def split: sum.splits if_splits option.splits)
qed

section \<open>What the search returns\<close>

lemma pageLoop_Inr:
  "pageLoop name page records = Inr records' \<Longrightarrow>
   records' = records @ filter (nameMatches name) page \<and>
   (\<forall>g \<in> set page. AutoScalingGroupName g \<noteq> None)"
proof (induction page arbitrary: records)
  case Nil
  then show ?case by simp
next
  case (Cons g page)
  from Cons.prems obtain n where n: "AutoScalingGroupName g = Some n"
    by (auto simp: deref_def split: option.splits)
  with Cons.prems have
    "pageLoop name page (if Contains n name then records @ [g] else records) = Inr records'"
    by (simp add: deref_def)
  from Cons.IH [OF this] n show ?case
    by (simp add: nameMatches_def)
qed

lemma pagesLoop_Inr:
  "pagesLoop name pgs records = Inr records' \<Longrightarrow>
   records' = records @ filter (nameMatches name) (concat pgs) \<and>
   (\<forall>g \<in> set (concat pgs). AutoScalingGroupName g \<noteq> None)"
proof (induction pgs arbitrary: records)
  case Nil
  then show ?case by simp
next
  case (Cons page pgs)
  from Cons.prems obtain mid where mid: "pageLoop name page records = Inr mid"
    and rest: "pagesLoop name pgs mid = Inr records'"
    by (auto split: sum.splits)
  from pageLoop_Inr [OF mid] Cons.IH [OF rest] show ?case by auto
qed

lemma pageLoop_total:
  "\<forall>g \<in> set page. AutoScalingGroupName g \<noteq> None \<Longrightarrow>
   pageLoop name page records = Inr (records @ filter (nameMatches name) page)"
  by (induction page arbitrary: records) (auto simp: deref_def nameMatches_def)

lemma pagesLoop_total:
  "\<forall>g \<in> set (concat pgs). AutoScalingGroupName g \<noteq> None \<Longrightarrow>
   pagesLoop name pgs records = Inr (records @ filter (nameMatches name) (concat pgs))"
  by (induction pgs arbitrary: records) (auto simp: pageLoop_total)

lemma awsSearch_Inr:
  "awsSearchEC2ASGByName pgs err name = Inr (records, out) \<Longrightarrow>
   records = filter (nameMatches name) (concat pgs)"
  by (auto simp: awsSearchEC2ASGByName_def split: sum.splits dest: pagesLoop_Inr)

lemma collectPriorities_Inr:
  "collectPriorities cfg w = Inr (caPriorities, out) \<Longrightarrow>
   groupLoop (ltContains cfg) (describeSubnets w)
     (filter (nameMatches (asgContains cfg)) (concat (pages w))) [] = Inr caPriorities"
  by (auto simp: collectPriorities_def split: sum.splits dest: awsSearch_Inr)

lemma tier_of_entry:
  "distinct (map fst cap) \<Longrightarrow> (k, ns) \<in> set cap \<Longrightarrow> namesAt cap k = ns"
  by (simp add: namesAt_def)

lemma entry_of_tier:
  "n \<in> set (namesAt cap k) \<Longrightarrow> (k, namesAt cap k) \<in> set cap"
  by (auto simp: namesAt_def split: option.splits dest: map_of_SomeD)

lemma set_namesScoring:
  "n \<in> set (namesScoring lt ds k gs) \<longleftrightarrow>
   (\<exists>g \<in> set gs. passesTemplate lt g \<and> freeIPs_of ds g = Inr k \<and> AutoScalingGroupName g = Some n)"
  by (auto simp: namesScoring_def split: option.splits)

lemma freeIPs_of_Inr:
  "freeIPs_of ds asg = Inr s \<Longrightarrow>
   \<exists>vpc counts. VPCZoneIdentifier asg = Some vpc \<and>
     map (available ds) (Split vpc CHR '','') = map Inr counts \<and> s = sum_list counts"
  by (auto simp: freeIPs_of_def deref_def split: option.splits dest: sumFreeIPs_Inr)

section \<open>C1: every kept group is in exactly one tier, keyed by its score\<close>

text \<open>
  Claim C1. Take a call of \<open>mainLoop\<close> whose loop over the groups finishes (no panic), on a
  listing in which group names are unique, and a listed group that passes the name filter
  of line 206 and the template filter of line 97. Then every subnet lookup of the group
  gave a count, the group's score is the sum of these counts in Go's \<open>int\<close> arithmetic
  (the exact integer sum whenever that sum fits into 64 bits), exactly one entry of
  \<open>caPriorities\<close> holds the group's name, the key of that entry is the score, and no two
  entries share a key.
\<close>

theorem kept_asg_in_exactly_one_tier:
  assumes run: "collectPriorities cfg w = Inr (caPriorities, out)"
    and unique: "distinct (map AutoScalingGroupName (concat (pages w)))"
    and asg: "asg \<in> set (concat (pages w))"
    and name: "AutoScalingGroupName asg = Some name" "Contains name (asgContains cfg)"
    and lt: "ltName_of asg = Inr ltName" "Contains ltName (ltContains cfg)"
  shows "\<exists>score vpc counts.
           VPCZoneIdentifier asg = Some vpc \<and>
           map (available (describeSubnets w)) (Split vpc CHR '','') = map Inr counts \<and>
           score = sum_list counts \<and>
           (- (2 ^ 63) \<le> (\<Sum>c\<leftarrow>counts. sint c) \<and> (\<Sum>c\<leftarrow>counts. sint c) < 2 ^ 63 \<longrightarrow>
              sint score = (\<Sum>c\<leftarrow>counts. sint c)) \<and>
           (\<exists>!tier. tier \<in> set caPriorities \<and> name \<in> set (snd tier)) \<and>
           (\<forall>tier \<in> set caPriorities. name \<in> set (snd tier) \<longrightarrow> fst tier = score) \<and>
           distinct (map fst caPriorities)"
proof -
  let ?ds = "describeSubnets w" and ?lt = "ltContains cfg"
  let ?records = "filter (nameMatches (asgContains cfg)) (concat (pages w))"
  have loop: "groupLoop ?lt ?ds ?records [] = Inr caPriorities"
    using run by (rule collectPriorities_Inr)
  have keys: "distinct (map fst caPriorities)"
    using groupLoop_distinct [OF loop] by simp
  have tiers: "namesAt caPriorities k = namesScoring ?lt ?ds k ?records" for k
    using groupLoop_namesAt [OF loop, of k] by (simp add: namesAt_def)
  have listed: "asg \<in> set ?records"
    using asg name by (simp add: nameMatches_def)
  have passes: "passesTemplate ?lt asg"
    using lt by (simp add: passesTemplate_def)
  from groupLoop_complete [OF loop listed] lt obtain score
    where score: "freeIPs_of ?ds asg = Inr score" by auto
  from freeIPs_of_Inr [OF score] obtain vpc counts
    where vpc: "VPCZoneIdentifier asg = Some vpc"
      and counts: "map (available ?ds) (Split vpc CHR '','') = map Inr counts"
      and sum: "score = sum_list counts" by blast
  have exact: "- (2 ^ 63) \<le> (\<Sum>c\<leftarrow>counts. sint c) \<and> (\<Sum>c\<leftarrow>counts. sint c) < 2 ^ 63 \<longrightarrow>
      sint score = (\<Sum>c\<leftarrow>counts. sint c)"
    using sum by (simp add: sint_sum_list_exact)
  have inj: "inj_on AutoScalingGroupName (set (concat (pages w)))"
    using unique by (simp add: distinct_map)
  have only: "fst tier = score" if "tier \<in> set caPriorities" "name \<in> set (snd tier)" for tier
  proof -
    from that keys have "name \<in> set (namesAt caPriorities (fst tier))"
      using tier_of_entry [of caPriorities "fst tier" "snd tier"] by simp
    then obtain g where g: "g \<in> set ?records" "freeIPs_of ?ds g = Inr (fst tier)"
      "AutoScalingGroupName g = Some name"
      by (auto simp: tiers set_namesScoring)
    from g(1) have "g \<in> set (concat (pages w))" by simp
    from inj_onD [OF inj _ this asg] g(3) name have "g = asg" by simp
    with g score show ?thesis by simp
  qed
  have "name \<in> set (namesAt caPriorities score)"
    using listed passes score name by (auto simp: tiers set_namesScoring)
  then have there: "(score, namesAt caPriorities score) \<in> set caPriorities"
    and inside: "name \<in> set (snd (score, namesAt caPriorities score))"
    by (simp_all add: entry_of_tier)
  have one: "\<exists>!tier. tier \<in> set caPriorities \<and> name \<in> set (snd tier)"
  proof (rule ex1I [of _ "(score, namesAt caPriorities score)"])
    show "(score, namesAt caPriorities score) \<in> set caPriorities \<and>
          name \<in> set (snd (score, namesAt caPriorities score))"
      using there inside by simp
  next
    fix tier
    assume t: "tier \<in> set caPriorities \<and> name \<in> set (snd tier)"
    then have "fst tier = score" using only by blast
    moreover from t keys have "namesAt caPriorities (fst tier) = snd tier"
      using tier_of_entry [of caPriorities "fst tier" "snd tier"] by simp
    ultimately show "tier = (score, namesAt caPriorities score)"
      by (metis prod.collapse)
  qed
  from vpc counts sum exact one only keys show ?thesis by blast
qed


theorem kept_asg_in_exactly_one_tier_witness:
  "collectPriorities exampleConfig exampleWorld =
     Inr ([(5, [''A'']), (8, [''B'']), (10, [''C''])], []) \<and>
   distinct (map AutoScalingGroupName (concat (pages exampleWorld))) \<and>
   mixedGroup ''B'' ''S2,S3'' \<in> set (concat (pages exampleWorld)) \<and>
   AutoScalingGroupName (mixedGroup ''B'' ''S2,S3'') = Some ''B'' \<and>
   Contains ''B'' (asgContains exampleConfig) \<and>
   ltName_of (mixedGroup ''B'' ''S2,S3'') = Inr ''workers-spot'' \<and>
   Contains ''workers-spot'' (ltContains exampleConfig) \<and>
   - (2 ^ 63) \<le> (\<Sum>c\<leftarrow>[5, 3 :: go_int]. sint c) \<and> (\<Sum>c\<leftarrow>[5, 3 :: go_int]. sint c) < 2 ^ 63 \<and>
   (\<exists>score vpc counts.
      VPCZoneIdentifier (mixedGroup ''B'' ''S2,S3'') = Some vpc \<and>
      map (available (describeSubnets exampleWorld)) (Split vpc CHR '','') = map Inr counts \<and>
      score = sum_list counts \<and>
      (- (2 ^ 63) \<le> (\<Sum>c\<leftarrow>counts. sint c) \<and> (\<Sum>c\<leftarrow>counts. sint c) < 2 ^ 63 \<longrightarrow>
         sint score = (\<Sum>c\<leftarrow>counts. sint c)) \<and>
      (\<exists>!tier. tier \<in> set [(5 :: go_int, [''A'']), (8, [''B'']), (10, [''C''])] \<and> ''B'' \<in> set (snd tier)) \<and>
      (\<forall>tier \<in> set [(5, [''A'']), (8, [''B'']), (10, [''C''])].
         ''B'' \<in> set (snd tier) \<longrightarrow> fst tier = score) \<and>
      distinct (map fst [(5 :: go_int, [''A'']), (8, [''B'']), (10, [''C''])]))"
proof -
  have run: "collectPriorities exampleConfig exampleWorld =
     Inr ([(5, [''A'']), (8, [''B'']), (10, [''C''])], [])"
    by (simp add: collectPriorities_def awsSearchEC2ASGByName_def exampleConfig_def
      exampleWorld_def directGroup_def mixedGroup_def exampleSubnets_def subnetWith_def
      ltName_of_def deref_def freeIPs_of_def available_def addPriority_def)
  have unique: "distinct (map AutoScalingGroupName (concat (pages exampleWorld)))"
    by (simp add: exampleWorld_def directGroup_def mixedGroup_def)
  have asg: "mixedGroup ''B'' ''S2,S3'' \<in> set (concat (pages exampleWorld))"
    by (simp add: exampleWorld_def)
  have name: "AutoScalingGroupName (mixedGroup ''B'' ''S2,S3'') = Some ''B''"
    by (simp add: mixedGroup_def)
  have nameFilter: "Contains ''B'' (asgContains exampleConfig)"
    by (simp add: exampleConfig_def)
  have lt: "ltName_of (mixedGroup ''B'' ''S2,S3'') = Inr ''workers-spot''"
    by (simp add: mixedGroup_def ltName_of_def deref_def)
  have ltFilter: "Contains ''workers-spot'' (ltContains exampleConfig)"
    by (simp add: exampleConfig_def)
  have low: "- (2 ^ 63) \<le> (\<Sum>c\<leftarrow>[5, 3 :: go_int]. sint c)"
    by simp
  have high: "(\<Sum>c\<leftarrow>[5, 3 :: go_int]. sint c) < 2 ^ 63"
    by simp
  note kept_asg_in_exactly_one_tier [OF run unique asg name nameFilter lt ltFilter]
  with run unique asg name nameFilter lt ltFilter low high show ?thesis
    by (intro conjI) assumption+
qed

section \<open>The order of the keys\<close>


lemma sint_inj_on: "inj_on (sint :: go_int \<Rightarrow> int) A"
  by (rule inj_onI) (rule signed_word_eqI)

lemma set_sortKeys: "set (sortKeys ks) = set ks"
  by (simp add: sortKeys_def)

lemma distinct_sortKeys: "distinct (sortKeys ks) = distinct ks"
  by (simp add: sortKeys_def)

lemma sortKeys_descending:
  assumes "distinct ks"
  shows "sorted_wrt (\<lambda>higher lower. sint lower < sint higher) (sortKeys ks)"
proof -
  have "sorted (map sint (sort_key sint ks))" by (rule sorted_sort_key)
  moreover have "distinct (map sint (sort_key sint ks))"
    using assms by (simp add: distinct_map sint_inj_on)
  ultimately have "sorted_wrt (<) (map sint (sort_key sint ks))"
    by (simp add: strict_sorted_iff)
  then have "sorted_wrt (\<lambda>a b. sint a < sint b) (sort_key sint ks)"
    by (simp add: sorted_wrt_map)
  then show ?thesis
    by (simp add: sortKeys_def sorted_wrt_rev)
qed


section \<open>C2: tiers in strictly descending order, the catch-all block last\<close>

text \<open>
  Claim C2. For every \<open>caPriorities\<close> (a Go map: no key twice) the text of lines 141 to
  159 is the blocks of the keys, every key once, in strictly descending order of the
  signed scores, followed when \<open>catchAll\<close> is set by the block \<open>1:\<close> with the single
  entry \<open>.*\<close>. The catch-all block is appended after the computed blocks whatever their
  keys are: a computed tier with score 1 keeps its own block, with its own names only.
\<close>

theorem tiers_descending_then_catch_all:
  assumes "distinct (map fst caPriorities)"
  shows "\<exists>keys. set keys = fst ` set caPriorities \<and> distinct keys \<and>
           sorted_wrt (\<lambda>higher lower. sint lower < sint higher) keys \<and>
           renderPriorities caPriorities includeCatchAll =
             concat (map (tierBlock caPriorities) keys) @
             (if includeCatchAll then ''1:'' @ [newline] @ ''  - .*'' @ [newline] else [])"
proof -
  let ?keys = "sortKeys (map fst caPriorities)"
  have "set ?keys = fst ` set caPriorities" by (simp add: set_sortKeys)
  moreover have "distinct ?keys" using assms by (simp add: distinct_sortKeys)
  moreover have "sorted_wrt (\<lambda>higher lower. sint lower < sint higher) ?keys"
    using assms by (rule sortKeys_descending)
  moreover have "renderPriorities caPriorities includeCatchAll =
      concat (map (tierBlock caPriorities) ?keys) @
      (if includeCatchAll then ''1:'' @ [newline] @ ''  - .*'' @ [newline] else [])"
    by (simp add: renderPriorities_def prioritiesFrom_def catchAllBlock_def)
  ultimately show ?thesis by blast
qed

theorem tiers_descending_then_catch_all_witness:
  "distinct (map fst [(1 :: go_int, [''X'']), (7, [''Y''])]) \<and>
   (\<exists>keys. set keys = fst ` set [(1 :: go_int, [''X'']), (7, [''Y''])] \<and> distinct keys \<and>
      sorted_wrt (\<lambda>higher lower. sint lower < sint higher) keys \<and>
      renderPriorities [(1, [''X'']), (7, [''Y''])] True =
        concat (map (tierBlock [(1, [''X'']), (7, [''Y''])]) keys) @
        (if True then ''1:'' @ [newline] @ ''  - .*'' @ [newline] else [])) \<and>
   renderPriorities [(1, [''X'']), (7, [''Y''])] True =
     ''7:'' @ [newline] @ ''  - Y'' @ [newline] @
     ''1:'' @ [newline] @ ''  - X'' @ [newline] @
     ''1:'' @ [newline] @ ''  - .*'' @ [newline]"
proof -
  have keys: "distinct (map fst [(1 :: go_int, [''X'']), (7, [''Y''])])"
    by simp
  have rendered: "renderPriorities [(1, [''X'']), (7, [''Y''])] True =
     ''7:'' @ [newline] @ ''  - Y'' @ [newline] @
     ''1:'' @ [newline] @ ''  - X'' @ [newline] @
     ''1:'' @ [newline] @ ''  - .*'' @ [newline]"
    by (simp add: renderPriorities_def prioritiesFrom_def sortKeys_def tierBlock_def
        namesAt_def catchAllBlock_def Sprintf_d_def decimal.simps digit_char_def)
  note tiers_descending_then_catch_all [OF keys, of True]
  with keys rendered show ?thesis
    by (intro conjI) assumption+
qed

section \<open>The loop reads only the output of a subnet lookup\<close>





section \<open>C9: the text is determined by the groups, the counts and the settings\<close>



section \<open>When the loop finishes, and when it cannot\<close>

lemma collectPriorities_total:
  assumes named: "\<forall>g \<in> set (concat (pages w)). AutoScalingGroupName g \<noteq> None"
    and sound: "\<forall>g \<in> set (concat (pages w)). nameMatches (asgContains cfg) g \<longrightarrow>
      (\<exists>ltn. ltName_of g = Inr ltn \<and>
         (Contains ltn (ltContains cfg) \<longrightarrow> (\<exists>s. freeIPs_of (describeSubnets w) g = Inr s)))"
  shows "\<exists>caPriorities out. collectPriorities cfg w = Inr (caPriorities, out)"
proof -
  let ?records = "filter (nameMatches (asgContains cfg)) (concat (pages w))"
  have search: "pagesLoop (asgContains cfg) (pages w) [] = Inr ?records"
    using pagesLoop_total [OF named, of "asgContains cfg" "[]"] by simp
  have "\<forall>g \<in> set ?records. \<exists>ltn. ltName_of g = Inr ltn \<and>
      (Contains ltn (ltContains cfg) \<longrightarrow>
         (\<exists>s. freeIPs_of (describeSubnets w) g = Inr s) \<and> (\<exists>n. AutoScalingGroupName g = Some n))"
    using named sound by fastforce
  from groupLoop_total [OF this, of "[]"] obtain cap
    where "groupLoop (ltContains cfg) (describeSubnets w) ?records [] = Inr cap" by blast
  with search show ?thesis
    by (simp add: collectPriorities_def awsSearchEC2ASGByName_def)
qed

lemma freeIPs_of_total:
  "VPCZoneIdentifier asg = Some vpc \<Longrightarrow>
   map (available ds) (Split vpc CHR '','') = map Inr counts \<Longrightarrow>
   freeIPs_of ds asg = Inr (sum_list counts)"
  by (simp add: freeIPs_of_def deref_def sumFreeIPs_of_counts)

lemma mainLoop_Inr_collect:
  "mainLoop cfg w = Inr r \<Longrightarrow> \<exists>cap out. collectPriorities cfg w = Inr (cap, out)"
  by (cases "collectPriorities cfg w") (auto simp: mainLoop_def)

lemma unresolvable_template_stops_cycle:
  assumes "g \<in> set (concat (pages w))" and "nameMatches (asgContains cfg) g"
    and "ltName_of g = Inl p"
  shows "\<exists>q. mainLoop cfg w = Inl q"
proof (cases "mainLoop cfg w")
  case (Inl q)
  then show ?thesis by blast
next
  case (Inr r)
  then obtain cap out where "collectPriorities cfg w = Inr (cap, out)"
    using mainLoop_Inr_collect by blast
  from groupLoop_complete [OF collectPriorities_Inr [OF this], of g] assms
  show ?thesis by simp
qed

lemma failed_count_stops_cycle:
  assumes "g \<in> set (concat (pages w))" and "nameMatches (asgContains cfg) g"
    and "passesTemplate (ltContains cfg) g" and "freeIPs_of (describeSubnets w) g = Inl p"
  shows "\<exists>q. mainLoop cfg w = Inl q"
proof (cases "mainLoop cfg w")
  case (Inl q)
  then show ?thesis by blast
next
  case (Inr r)
  then obtain cap out where "collectPriorities cfg w = Inr (cap, out)"
    using mainLoop_Inr_collect by blast
  from groupLoop_complete [OF collectPriorities_Inr [OF this], of g] assms
  show ?thesis by (auto simp: passesTemplate_def split: sum.splits)
qed

section \<open>Evaluating the examples\<close>

lemmas example_defs =
  exampleConfig_def exampleWorld_def directGroup_def mixedGroup_def
  exampleSubnets_def subnetWith_def storedConfigMap_def

lemmas loop_defs =
  collectPriorities_def awsSearchEC2ASGByName_def ltName_of_def deref_def freeIPs_of_def
  available_def addPriority_def

lemmas text_defs =
  renderPriorities_def prioritiesFrom_def sortKeys_def tierBlock_def namesAt_def
  catchAllBlock_def Sprintf_d_def decimal.simps digit_char_def newline_def

section \<open>C8: the example of the specification\<close>

text \<open>
  Claim C8. For the groups \<open>A\<close> (subnet \<open>S1\<close>, 5 free addresses), \<open>B\<close> (\<open>S2\<close> with 5 and
  \<open>S3\<close> with 3) and \<open>C\<close> (\<open>S4\<close>, 10), both filters empty and the catch-all enabled, the
  scores are 5, 8 and 10, and the text that \<open>mainLoop\<close> writes under \<open>priorities\<close> is the
  four blocks \<open>10: C\<close>, \<open>8: B\<close>, \<open>5: A\<close> and \<open>1: .*\<close>, each line ended by a line feed.
\<close>

theorem specification_example:
  "freeIPs_of exampleSubnets (directGroup ''A'' ''S1'') = Inr 5 \<and>
   freeIPs_of exampleSubnets (mixedGroup ''B'' ''S2,S3'') = Inr 8 \<and>
   freeIPs_of exampleSubnets (directGroup ''C'' ''S4'') = Inr 10 \<and>
   collectPriorities exampleConfig exampleWorld =
     Inr ([(5, [''A'']), (8, [''B'']), (10, [''C''])], []) \<and>
   renderPriorities [(5, [''A'']), (8, [''B'']), (10, [''C''])] (catchAll exampleConfig) =
     ''10:'' @ [CHR 0x0A] @ ''  - C'' @ [CHR 0x0A] @
     ''8:'' @ [CHR 0x0A] @ ''  - B'' @ [CHR 0x0A] @
     ''5:'' @ [CHR 0x0A] @ ''  - A'' @ [CHR 0x0A] @
     ''1:'' @ [CHR 0x0A] @ ''  - .*'' @ [CHR 0x0A] \<and>
   mainLoop exampleConfig exampleWorld =
     Inr \<lparr>stdout = [''Created configmap: kube-system/cluster-autoscaler-priority-expander'' @ [CHR 0x0A]],
          writes = [Create ''kube-system''
            \<lparr>ObjectMeta = zeroObjectMeta\<lparr>Name := ''cluster-autoscaler-priority-expander''\<rparr>,
             Immutable = None,
             Data = [''priorities'' \<mapsto>
               ''10:'' @ [CHR 0x0A] @ ''  - C'' @ [CHR 0x0A] @
               ''8:'' @ [CHR 0x0A] @ ''  - B'' @ [CHR 0x0A] @
               ''5:'' @ [CHR 0x0A] @ ''  - A'' @ [CHR 0x0A] @
               ''1:'' @ [CHR 0x0A] @ ''  - .*'' @ [CHR 0x0A]],
             BinaryData = Map.empty\<rparr>]\<rparr>"
proof -
  have a: "freeIPs_of exampleSubnets (directGroup ''A'' ''S1'') = Inr 5"
    by (simp add: example_defs loop_defs)
  have b: "freeIPs_of exampleSubnets (mixedGroup ''B'' ''S2,S3'') = Inr 8"
    by (simp add: example_defs loop_defs)
  have c: "freeIPs_of exampleSubnets (directGroup ''C'' ''S4'') = Inr 10"
    by (simp add: example_defs loop_defs)
  have tiers: "collectPriorities exampleConfig exampleWorld =
     Inr ([(5, [''A'']), (8, [''B'']), (10, [''C''])], [])"
    by (simp add: example_defs loop_defs)
  have rendered: "renderPriorities [(5, [''A'']), (8, [''B'']), (10, [''C''])] (catchAll exampleConfig) =
     ''10:'' @ [CHR 0x0A] @ ''  - C'' @ [CHR 0x0A] @
     ''8:'' @ [CHR 0x0A] @ ''  - B'' @ [CHR 0x0A] @
     ''5:'' @ [CHR 0x0A] @ ''  - A'' @ [CHR 0x0A] @
     ''1:'' @ [CHR 0x0A] @ ''  - .*'' @ [CHR 0x0A]"
    by (simp add: exampleConfig_def text_defs)
  have "mainLoop exampleConfig exampleWorld =
     Inr \<lparr>stdout = [''Created configmap: kube-system/cluster-autoscaler-priority-expander'' @ [CHR 0x0A]],
          writes = [Create ''kube-system''
            \<lparr>ObjectMeta = zeroObjectMeta\<lparr>Name := ''cluster-autoscaler-priority-expander''\<rparr>,
             Immutable = None,
             Data = [''priorities'' \<mapsto>
               renderPriorities [(5, [''A'']), (8, [''B'']), (10, [''C''])] (catchAll exampleConfig)],
             BinaryData = Map.empty\<rparr>]\<rparr>"
    unfolding mainLoop_def tiers
    by (simp add: exampleConfig_def exampleWorld_def reconcile_def qualifiedName_def
        caPriorityExpander_def newline_def)
  with a b c tiers rendered show ?thesis
    by (simp only:)
qed

section \<open>C3: a group with neither template reference\<close>

text \<open>
  Claim C3 asks that a group with neither a launch template nor a mixed-instances policy
  be left out of the listing with a warning, the other groups still being evaluated.
  Line 94 dereferences the absent policy instead: on the listing of such a group \<open>L\<close>
  followed by the group \<open>A\<close>, \<open>mainLoop\<close> panics with a nil dereference, so that nothing
  is listed and nothing is written (\<open>unresolvable_template_stops_cycle\<close> above is the same
  for every listing).
\<close>

theorem legacy_group_panics:
  "ltName_of (legacyGroup ''L'' ''S1'') = Inl NilDereference \<and>
   mainLoop exampleConfig
     (exampleWorld\<lparr>pages := [[legacyGroup ''L'' ''S1'', directGroup ''A'' ''S1'']]\<rparr>) =
     Inl NilDereference"
  by (simp add: mainLoop_def legacyGroup_def example_defs loop_defs)

section \<open>C4: a subnet lookup that fails\<close>

text \<open>
  Claim C4 asks that a group with a failed subnet lookup be left out of the tiers of the
  cycle, with the cause logged. Line 103 drops the error and line 106 indexes the empty
  \<open>Subnets\<close> of the output: on the listing of \<open>A\<close>, \<open>D\<close> (subnets \<open>S1\<close> and the unknown
  \<open>S9\<close>) and \<open>C\<close>, \<open>mainLoop\<close> panics with an index out of range, so that no group is
  tiered (\<open>failed_count_stops_cycle\<close> above is the same for every listing).
\<close>

theorem failed_lookup_panics:
  "exampleSubnets ''S9'' = (Some \<lparr>Subnets = []\<rparr>, Some ''InvalidSubnetID.NotFound'') \<and>
   freeIPs_of exampleSubnets (directGroup ''D'' ''S1,S9'') = Inl IndexOutOfRange \<and>
   mainLoop exampleConfig
     (exampleWorld\<lparr>pages := [[directGroup ''A'' ''S1'', directGroup ''D'' ''S1,S9'',
                               directGroup ''C'' ''S4'']]\<rparr>) =
     Inl IndexOutOfRange"
  by (simp add: mainLoop_def example_defs loop_defs)

section \<open>C7: a group without subnets\<close>

text \<open>
  Claim C7 asks that a group with no subnets score 0 and be listed under \<open>0:\<close>. The loop
  of lines 101 to 107 does return 0 on an empty list of ids, but \<open>strings.Split\<close> of the
  empty \<open>VPCZoneIdentifier\<close> is the list holding the empty id, which line 103 looks up:
  EC2 knows no such subnet, and \<open>mainLoop\<close> panics at line 106.
\<close>

theorem no_subnets_group_panics:
  "sumFreeIPs exampleSubnets [] 0 = Inr 0 \<and>
   Split [] CHR '','' = [[]] \<and>
   exampleSubnets [] = (Some \<lparr>Subnets = []\<rparr>, Some ''InvalidSubnetID.NotFound'') \<and>
   freeIPs_of exampleSubnets (directGroup ''E'' []) = Inl IndexOutOfRange \<and>
   mainLoop exampleConfig (exampleWorld\<lparr>pages := [[directGroup ''E'' []]]\<rparr>) =
     Inl IndexOutOfRange"
  by (simp add: mainLoop_def example_defs loop_defs)

section \<open>The ConfigMap that \<open>mainLoop\<close> writes\<close>

lemma mainLoop_reconciles:
  assumes "collectPriorities cfg w = Inr (caPriorities, out)"
    and "buildConfigErr w = None" and "newForConfigErr w = None"
  shows "\<exists>r. mainLoop cfg w = Inr r \<and>
           writes r = writes (reconcile cfg w
             [''priorities'' \<mapsto> renderPriorities caPriorities (catchAll cfg)]) \<and>
           stdout r = out @ stdout (reconcile cfg w
             [''priorities'' \<mapsto> renderPriorities caPriorities (catchAll cfg)])"
  using assms by (simp add: mainLoop_def Let_def)

section \<open>C6: create, skip the creation, or replace\<close>

text \<open>
  Claim C6. For every payload \<open>data\<close>: when the lookup of line 135 fails and
  \<open>skipCMCreation\<close> is off, the one write is a \<open>Create\<close> of a ConfigMap named
  \<open>cluster-autoscaler-priority-expander\<close> whose \<open>Data\<close> is \<open>data\<close>; when it fails and
  \<open>skipCMCreation\<close> is on, there is no write and only the skipped creation is printed;
  when it succeeds and the lookup of line 184 returns the object, the one write is an
  \<open>Update\<close> of that object with \<open>Data\<close> replaced by \<open>data\<close>, nothing of the old \<open>Data\<close>
  being kept.
\<close>

theorem reconcile_creates_skips_or_replaces:
  "(firstGet w = Inl err \<and> \<not> skipCMCreation cfg \<longrightarrow>
      writes (reconcile cfg w data) =
        [Create (caNamespace cfg)
           \<lparr>ObjectMeta = zeroObjectMeta\<lparr>Name := caPriorityExpander\<rparr>,
            Immutable = None, Data = data, BinaryData = Map.empty\<rparr>]) \<and>
   (firstGet w = Inl err \<and> skipCMCreation cfg \<longrightarrow>
      writes (reconcile cfg w data) = [] \<and>
      stdout (reconcile cfg w data) =
        [''Skipping creation of configmap: '' @ caNamespace cfg @ ''/'' @ caPriorityExpander @
         [newline]]) \<and>
   (firstGet w = Inr found \<and> secondGet w = Inr fetched \<longrightarrow>
      writes (reconcile cfg w data) = [Update (caNamespace cfg) (fetched\<lparr>Data := data\<rparr>)] \<and>
      Data (fetched\<lparr>Data := data\<rparr>) = data)"
  by (simp add: reconcile_def Let_def qualifiedName_def)

theorem reconcile_creates_skips_or_replaces_witness:
  "(firstGet exampleWorld = Inl ''configmaps cluster-autoscaler-priority-expander not found'' \<and>
    \<not> skipCMCreation exampleConfig \<and>
    writes (reconcile exampleConfig exampleWorld [''priorities'' \<mapsto> ''7:'']) =
      [Create ''kube-system''
         \<lparr>ObjectMeta = zeroObjectMeta\<lparr>Name := caPriorityExpander\<rparr>,
          Immutable = None, Data = [''priorities'' \<mapsto> ''7:''], BinaryData = Map.empty\<rparr>]) \<and>
   (firstGet exampleWorld = Inl ''configmaps cluster-autoscaler-priority-expander not found'' \<and>
    skipCMCreation (exampleConfig\<lparr>skipCMCreation := True\<rparr>) \<and>
    writes (reconcile (exampleConfig\<lparr>skipCMCreation := True\<rparr>) exampleWorld
      [''priorities'' \<mapsto> ''7:'']) = [] \<and>
    stdout (reconcile (exampleConfig\<lparr>skipCMCreation := True\<rparr>) exampleWorld
      [''priorities'' \<mapsto> ''7:'']) =
      [''Skipping creation of configmap: kube-system/cluster-autoscaler-priority-expander'' @
       [newline]]) \<and>
   (firstGet (exampleWorld\<lparr>firstGet := Inr storedConfigMap, secondGet := Inr storedConfigMap\<rparr>) =
      Inr storedConfigMap \<and>
    secondGet (exampleWorld\<lparr>firstGet := Inr storedConfigMap, secondGet := Inr storedConfigMap\<rparr>) =
      Inr storedConfigMap \<and>
    writes (reconcile exampleConfig
      (exampleWorld\<lparr>firstGet := Inr storedConfigMap, secondGet := Inr storedConfigMap\<rparr>)
      [''priorities'' \<mapsto> ''7:'']) =
      [Update ''kube-system'' (storedConfigMap\<lparr>Data := [''priorities'' \<mapsto> ''7:'']\<rparr>)] \<and>
    Data (storedConfigMap\<lparr>Data := [''priorities'' \<mapsto> ''7:'']\<rparr>) ''note'' = None)"
proof -
  let ?absent = "''configmaps cluster-autoscaler-priority-expander not found''"
  let ?skip = "exampleConfig\<lparr>skipCMCreation := True\<rparr>"
  let ?present = "exampleWorld\<lparr>firstGet := Inr storedConfigMap, secondGet := Inr storedConfigMap\<rparr>"
  let ?data = "[''priorities'' \<mapsto> ''7:'']"
  have absent: "firstGet exampleWorld = Inl ?absent"
    by (simp add: exampleWorld_def)
  have create: "\<not> skipCMCreation exampleConfig"
    by (simp add: exampleConfig_def)
  have skip: "skipCMCreation ?skip"
    by simp
  have ns: "caNamespace exampleConfig = ''kube-system''" "caNamespace ?skip = ''kube-system''"
    by (simp_all add: exampleConfig_def)
  have present: "firstGet ?present = Inr storedConfigMap" "secondGet ?present = Inr storedConfigMap"
    by simp_all
  from reconcile_creates_skips_or_replaces [of exampleWorld ?absent exampleConfig ?data]
    absent create ns
  have first: "writes (reconcile exampleConfig exampleWorld ?data) =
      [Create ''kube-system''
         \<lparr>ObjectMeta = zeroObjectMeta\<lparr>Name := caPriorityExpander\<rparr>,
          Immutable = None, Data = ?data, BinaryData = Map.empty\<rparr>]"
    by simp
  from reconcile_creates_skips_or_replaces [of exampleWorld ?absent ?skip ?data]
    absent skip ns
  have second: "writes (reconcile ?skip exampleWorld ?data) = []"
    "stdout (reconcile ?skip exampleWorld ?data) =
      [''Skipping creation of configmap: kube-system/cluster-autoscaler-priority-expander'' @
       [newline]]"
    by (simp_all add: caPriorityExpander_def)
  from reconcile_creates_skips_or_replaces
    [of ?present _ exampleConfig ?data storedConfigMap storedConfigMap] present ns
  have third: "writes (reconcile exampleConfig ?present ?data) =
      [Update ''kube-system'' (storedConfigMap\<lparr>Data := ?data\<rparr>)]"
    by simp
  have gone: "Data (storedConfigMap\<lparr>Data := ?data\<rparr>) ''note'' = None"
    by simp
  from absent create skip present first second third gone show ?thesis
    by (intro conjI) assumption+
qed

section \<open>C10: the update changes \<open>Data\<close> only\<close>

text \<open>
  Claim C10. Every \<open>Update\<close> that lines 184 to 196 send carries the object fetched at
  line 184 with its \<open>Data\<close> replaced: the metadata (name, namespace, labels, annotations,
  resource version and the rest), \<open>Immutable\<close> and \<open>BinaryData\<close> are those of the fetched
  object.
\<close>

theorem update_keeps_the_fetched_object:
  "Update ns written \<in> set (writes (reconcile cfg w data)) \<Longrightarrow>
   \<exists>fetched. secondGet w = Inr fetched \<and> ns = caNamespace cfg \<and>
     written = fetched\<lparr>Data := data\<rparr> \<and>
     ObjectMeta written = ObjectMeta fetched \<and>
     Immutable written = Immutable fetched \<and>
     BinaryData written = BinaryData fetched \<and>
     Data written = data"
  by (auto simp: reconcile_def Let_def split: if_splits sum.splits)

theorem update_keeps_the_fetched_object_witness:
  "Update ''kube-system'' (storedConfigMap\<lparr>Data := [''priorities'' \<mapsto> ''7:'']\<rparr>) \<in>
     set (writes (reconcile exampleConfig
       (exampleWorld\<lparr>firstGet := Inr storedConfigMap, secondGet := Inr storedConfigMap\<rparr>)
       [''priorities'' \<mapsto> ''7:''])) \<and>
   (\<exists>fetched.
      secondGet (exampleWorld\<lparr>firstGet := Inr storedConfigMap, secondGet := Inr storedConfigMap\<rparr>) =
        Inr fetched \<and>
      ''kube-system'' = caNamespace exampleConfig \<and>
      storedConfigMap\<lparr>Data := [''priorities'' \<mapsto> ''7:'']\<rparr> =
        fetched\<lparr>Data := [''priorities'' \<mapsto> ''7:'']\<rparr> \<and>
      ObjectMeta (storedConfigMap\<lparr>Data := [''priorities'' \<mapsto> ''7:'']\<rparr>) = ObjectMeta fetched \<and>
      Immutable (storedConfigMap\<lparr>Data := [''priorities'' \<mapsto> ''7:'']\<rparr>) = Immutable fetched \<and>
      BinaryData (storedConfigMap\<lparr>Data := [''priorities'' \<mapsto> ''7:'']\<rparr>) = BinaryData fetched \<and>
      Data (storedConfigMap\<lparr>Data := [''priorities'' \<mapsto> ''7:'']\<rparr>) = [''priorities'' \<mapsto> ''7:'']) \<and>
   ResourceVersion (ObjectMeta (storedConfigMap\<lparr>Data := [''priorities'' \<mapsto> ''7:'']\<rparr>)) = ''41'' \<and>
   Labels (ObjectMeta (storedConfigMap\<lparr>Data := [''priorities'' \<mapsto> ''7:'']\<rparr>)) ''app'' =
     Some ''cluster-autoscaler''"
proof -
  let ?present = "exampleWorld\<lparr>firstGet := Inr storedConfigMap, secondGet := Inr storedConfigMap\<rparr>"
  let ?data = "[''priorities'' \<mapsto> ''7:'']"
  have sent: "Update ''kube-system'' (storedConfigMap\<lparr>Data := ?data\<rparr>) \<in>
     set (writes (reconcile exampleConfig ?present ?data))"
    by (simp add: reconcile_def Let_def exampleConfig_def)
  have version: "ResourceVersion (ObjectMeta (storedConfigMap\<lparr>Data := ?data\<rparr>)) = ''41''"
    by (simp add: storedConfigMap_def)
  have labels: "Labels (ObjectMeta (storedConfigMap\<lparr>Data := ?data\<rparr>)) ''app'' =
      Some ''cluster-autoscaler''"
    by (simp add: storedConfigMap_def)
  note update_keeps_the_fetched_object [OF sent]
  with sent version labels show ?thesis
    by (intro conjI) assumption+
qed

section \<open>C5: a group listing that fails\<close>

text \<open>
  Claim C5 says that a failed group listing aborts the cycle, with no tiers computed and
  no write. It does not hold: lines 212 to 215 print the error and return the groups
  collected so far. Here the listing fails after a first page holding \<open>A\<close>, the ConfigMap
  exists, and \<open>mainLoop\<close> updates it with the tiers of that page alone.
\<close>

theorem failed_listing_still_writes:
  "pagesErr (exampleWorld\<lparr>pages := [[directGroup ''A'' ''S1'']],
                          pagesErr := Some ''RequestError: send request failed'',
                          firstGet := Inr storedConfigMap,
                          secondGet := Inr storedConfigMap\<rparr>) =
     Some ''RequestError: send request failed'' \<and>
   mainLoop exampleConfig
     (exampleWorld\<lparr>pages := [[directGroup ''A'' ''S1'']],
                    pagesErr := Some ''RequestError: send request failed'',
                    firstGet := Inr storedConfigMap,
                    secondGet := Inr storedConfigMap\<rparr>) =
     Inr \<lparr>stdout =
            [''Error searching EC2 ASGs by name: RequestError: send request failed'' @ [CHR 0x0A],
             ''Updated configmap: kube-system/cluster-autoscaler-priority-expander'' @ [CHR 0x0A]],
          writes =
            [Update ''kube-system''
               (storedConfigMap\<lparr>Data := [''priorities'' \<mapsto>
                  ''5:'' @ [CHR 0x0A] @ ''  - A'' @ [CHR 0x0A] @
                  ''1:'' @ [CHR 0x0A] @ ''  - .*'' @ [CHR 0x0A]]\<rparr>)]\<rparr>"
  by (simp add: mainLoop_def example_defs loop_defs text_defs reconcile_def qualifiedName_def
      caPriorityExpander_def)

lemma collectPriorities_pagesErr:
  "collectPriorities cfg (w\<lparr>pagesErr := Some err\<rparr>) =
     (case collectPriorities cfg (w\<lparr>pagesErr := None\<rparr>) of
        Inl p \<Rightarrow> Inl p
      | Inr (caPriorities, out) \<Rightarrow>
          Inr (caPriorities, [''Error searching EC2 ASGs by name: '' @ err @ [newline]]))"
  by (simp add: collectPriorities_def awsSearchEC2ASGByName_def split: sum.splits)

lemma collectPriorities_quiet:
  "collectPriorities cfg (w\<lparr>pagesErr := None\<rparr>) = Inr (caPriorities, out) \<Longrightarrow> out = []"
  by (auto simp: collectPriorities_def awsSearchEC2ASGByName_def split: sum.splits)

lemma reconcile_pagesErr: "reconcile cfg (w\<lparr>pagesErr := e\<rparr>) data = reconcile cfg w data"
  by (simp add: reconcile_def Let_def split: sum.splits)

text \<open>
  Claim C5 as amended: when the group listing fails, \<open>mainLoop\<close> prints the error and then
  does exactly what it does after a successful listing of the pages that were delivered
  before the failure: the same tiers, the same write, the same further output.
\<close>

theorem failed_listing_is_printed_and_the_cycle_goes_on:
  "mainLoop cfg (w\<lparr>pagesErr := Some err\<rparr>) =
     (case mainLoop cfg (w\<lparr>pagesErr := None\<rparr>) of
        Inl p \<Rightarrow> Inl p
      | Inr result \<Rightarrow>
          Inr (result\<lparr>stdout :=
            (''Error searching EC2 ASGs by name: '' @ err @ [newline]) # stdout result\<rparr>))"
proof (cases "collectPriorities cfg (w\<lparr>pagesErr := None\<rparr>)")
  case (Inl p)
  then show ?thesis
    by (simp add: mainLoop_def collectPriorities_pagesErr)
next
  case (Inr found)
  obtain caPriorities out where found: "found = (caPriorities, out)"
    by (cases found)
  with Inr have quiet: "out = []"
    using collectPriorities_quiet by blast
  from Inr found quiet show ?thesis
    by (simp add: mainLoop_def collectPriorities_pagesErr reconcile_pagesErr Let_def
        split: option.splits)
qed

end
